theory Spec2Isabelle
  imports Complex_Main
begin

section \<open>The Mapping Flattener (script.py)\<close>

text \<open>
  The script builds the literal \<open>af_to_mastra_mapping\<close>, a dictionary of dictionaries of
  strings, and flattens it into the list \<open>rows\<close> with three nested loops. A Python
  dictionary is iterated in insertion order, so a dictionary is modelled by the list of
  its items. The only values that occur are strings and dictionaries; the test
  \<open>isinstance(v, dict)\<close> is the case distinction on the constructor.
\<close>

datatype pyval = PStr string | PDict "(string \<times> pyval) list"

record row =
  Category :: string
  Subcategory :: string
  Field :: string
  Description :: pyval

text \<open>
  The innermost loop \<open>for key, value in details.items()\<close>: one append per item. The
  list \<open>rows\<close> is the state that the loops thread.
\<close>

fun append_details :: "string \<Rightarrow> string \<Rightarrow> (string \<times> pyval) list \<Rightarrow> row list \<Rightarrow> row list" where
  "append_details category subcategory [] rows = rows"
| "append_details category subcategory ((key, val) # rest) rows =
     append_details category subcategory rest
       (rows @ [\<lparr>Category = category, Subcategory = subcategory, Field = key, Description = val\<rparr>])"

text \<open>
  The middle loop \<open>for subcategory, details in items.items()\<close>: a dictionary is
  expanded by the inner loop, anything else gives one row with the empty Field.
\<close>

fun append_items :: "string \<Rightarrow> (string \<times> pyval) list \<Rightarrow> row list \<Rightarrow> row list" where
  "append_items category [] rows = rows"
| "append_items category ((subcategory, details) # rest) rows =
     append_items category rest
       (case details of
          PDict kvs \<Rightarrow> append_details category subcategory kvs rows
        | _ \<Rightarrow> rows @ [\<lparr>Category = category, Subcategory = subcategory, Field = '''',
                        Description = details\<rparr>])"

text \<open>
  The outer loop \<open>for category, items in af_to_mastra_mapping.items()\<close>: a top-level
  value that is not a dictionary is passed over without a row.
\<close>

fun flatten_loop :: "(string \<times> pyval) list \<Rightarrow> row list \<Rightarrow> row list" where
  "flatten_loop [] rows = rows"
| "flatten_loop ((category, items) # rest) rows =
     flatten_loop rest
       (case items of PDict its \<Rightarrow> append_items category its rows | _ \<Rightarrow> rows)"

text \<open>\<open>rows = []\<close> followed by the loops.\<close>

definition flatten_mapping :: "(string \<times> pyval) list \<Rightarrow> row list" where
  "flatten_mapping m = flatten_loop m []"

text \<open>The two counts of the summary lines: \<open>len([r for r in rows if r['Category'] == c])\<close>.\<close>

definition count_category :: "string \<Rightarrow> row list \<Rightarrow> nat" where
  "count_category c rows = length (filter (\<lambda>r. Category r = c) rows)"

text \<open>The literal of the script.\<close>

definition af_to_mastra_mapping :: "(string \<times> pyval) list" where
  "af_to_mastra_mapping =
    [(''Component Mapping'', PDict
       [(''.af Core Components'', PDict
          [(''agent_type'', PStr ''String identifier (e.g., 'memgpt')''),
           (''name'', PStr ''Agent display name''),
           (''description'', PStr ''Optional agent description''),
           (''system'', PStr ''System prompt/instructions''),
           (''llm_config'', PStr ''Model configuration (provider, model name, parameters)''),
           (''embedding_config'', PStr ''Embedding model settings''),
           (''core_memory'', PStr ''List of memory blocks (personality, user info)''),
           (''messages'', PStr ''Complete message history with metadata''),
           (''in_context_message_indices'', PStr ''Which messages are in current context''),
           (''tools'', PStr ''Tool definitions (schema, source code, metadata)''),
           (''tool_rules'', PStr ''Tool execution rules and constraints''),
           (''tool_exec_environment_variables'', PStr ''Environment variables for tools''),
           (''tags'', PStr ''Agent tags/labels''),
           (''metadata_'', PStr ''Additional metadata''),
           (''version'', PStr ''Schema version''),
           (''created_at'', PStr ''Creation timestamp''),
           (''updated_at'', PStr ''Last update timestamp'')]),
        (''Mastra Agent Equivalent'', PDict
          [(''name'', PStr ''Agent.name''),
           (''description'', PStr ''Agent.description''),
           (''instructions'', PStr ''Agent.instructions (from .af system field)''),
           (''model'', PStr ''Agent.model (derived from llm_config)''),
           (''tools'', PStr ''Agent.tools (converted from .af tools)''),
           (''memory'', PStr ''Agent.memory (converted from core_memory + messages)''),
           (''workflows'', PStr ''Not directly supported in .af''),
           (''evals'', PStr ''Not directly supported in .af''),
           (''voice'', PStr ''Not directly supported in .af'')])]),
     (''Key Differences'', PDict
       [(''Memory Management'', PDict
          [(''af_approach'', PStr ''Explicit core_memory blocks + message history''),
           (''mastra_approach'', PStr ''Memory class with storage adapters'')]),
        (''Tool Definitions'', PDict
          [(''af_approach'', PStr ''Complete tool source code + JSON schema''),
           (''mastra_approach'', PStr ''TypeScript functions with type definitions'')]),
        (''Context Management'', PDict
          [(''af_approach'', PStr ''in_context_message_indices array''),
           (''mastra_approach'', PStr ''Handled by memory system automatically'')])])]"

section \<open>The plotting surface\<close>

text \<open>
  Both chart scripts build a \<open>go.Figure()\<close>, add \<open>go.Scatter\<close> traces to it and set the
  layout. The plotting library draws the picture; what the scripts decide is the data of
  the figure: a list of traces, in the order of the \<open>add_trace\<close> calls, and the layout.
  A trace is a record of the attributes that the scripts pass; an attribute that a call
  leaves out is \<open>None\<close> (or \<open>NoText\<close>).
\<close>

record line_style =
  line_color :: string
  line_width :: nat

record marker_style =
  symbol :: "string option"
  marker_size :: nat
  marker_color :: string
  marker_line :: "line_style option"

record font_style =
  font_size :: nat
  font_color :: string

datatype textattr = NoText | Text string | Texts "string list"

record 'n scatter =
  trace_x :: "'n list"
  trace_y :: "'n list"
  mode :: string
  line :: "line_style option"
  marker :: "marker_style option"
  trace_text :: textattr
  textposition :: "string option"
  textfont :: "font_style option"
  trace_name :: "string option"
  showlegend :: bool
  hoverinfo :: string
  hovertext :: "string list option"

record axis =
  showgrid :: bool
  zeroline :: bool
  showticklabels :: bool
  axis_range :: "(rat \<times> rat) option"

record layout =
  title :: string
  xaxis :: axis
  yaxis :: axis
  plot_bgcolor :: string
  paper_bgcolor :: "string option"
  layout_showlegend :: "bool option"

record 'n figure =
  data :: "'n scatter list"
  layout :: layout

text \<open>
  A failed dictionary lookup \<open>d[k]\<close> raises Python's \<open>KeyError\<close> with the key as its
  argument. \<open>ConfigurationError\<close> is the dedicated error that the specification asks of
  a validating implementation; no path of the scripts raises it.
\<close>

datatype error = KeyError string | ConfigurationError string


text \<open>
  Numbers. The coordinates are Python numbers (integer and decimal literals) and the
  arrowhead position is computed with Python's \<open>+\<close>, \<open>-\<close>, \<open>*\<close> and the float literal
  \<open>0.9\<close>, that is in binary floating point with rounding. The renderer is therefore
  modelled over an arbitrary number type \<open>'n\<close> with the three operations and the literal
  as parameters: what is proved of it holds for every reading of the arithmetic, the
  rounding one included. The operations are total here; an integer too large to become
  a float, at which Python's \<open>*\<close> raises, is outside the model. \<open>exact_arith\<close> is the
  reading without rounding, over the rationals; the literals of the scripts are given
  in it.
\<close>

record 'n pyarith =
  py_add :: "'n \<Rightarrow> 'n \<Rightarrow> 'n"
  py_sub :: "'n \<Rightarrow> 'n \<Rightarrow> 'n"
  py_mul :: "'n \<Rightarrow> 'n \<Rightarrow> 'n"
  py_0_9 :: 'n

definition exact_arith :: "rat pyarith" where
  "exact_arith = \<lparr>py_add = (+), py_sub = (-), py_mul = (*), py_0_9 = 9 / 10\<rparr>"

section \<open>The Flow-Diagram Renderer (chart\_script.py)\<close>

text \<open>
  The input \<open>data\<close> has the keys \<open>"nodes"\<close> and \<open>"edges"\<close>; a node is a dictionary with
  the keys \<open>id\<close>, \<open>label\<close>, \<open>type\<close>, \<open>x\<close>, \<open>y\<close> and an edge one with \<open>from\<close>, \<open>to\<close>,
  \<open>label\<close>. They are records here, with prefixed field names (\<open>data_nodes\<close> for \<open>data["nodes"]\<close>).
\<close>

record 'n node =
  node_id :: string
  node_label :: string
  node_type :: string
  node_x :: 'n
  node_y :: 'n

record edge =
  edge_from :: string
  edge_to :: string
  edge_label :: string

record 'n chart_data =
  data_nodes :: "'n node list"
  data_edges :: "edge list"

text \<open>
  \<open>node_positions = {node["id"]: (node["x"], node["y"]) for node in data["nodes"]}\<close>:
  the comprehension stores the nodes from first to last, a later node replacing an
  earlier one of the same id.
\<close>

definition node_positions :: "'n node list \<Rightarrow> (string \<rightharpoonup> 'n \<times> 'n)" where
  "node_positions ns = foldl (\<lambda>m n. m(node_id n \<mapsto> (node_x n, node_y n))) Map.empty ns"

definition type_colors :: "string \<rightharpoonup> string" where
  "type_colors = [''input'' \<mapsto> ''#1FB8CD'', ''process'' \<mapsto> ''#FFC185'', ''output'' \<mapsto> ''#5D878F'']"

text \<open>The line trace of an edge (lines 52 to 59).\<close>

definition edge_line :: "'n \<times> 'n \<Rightarrow> 'n \<times> 'n \<Rightarrow> 'n scatter" where
  "edge_line from_pos to_pos =
     \<lparr>trace_x = [fst from_pos, fst to_pos], trace_y = [snd from_pos, snd to_pos],
      mode = ''lines'', line = Some \<lparr>line_color = ''#13343B'', line_width = 2\<rparr>,
      marker = None, trace_text = NoText, textposition = None, textfont = None,
      trace_name = None, showlegend = False, hoverinfo = ''skip'', hovertext = None\<rparr>"

text \<open>The arrowhead position (lines 63 and 64) and its trace (lines 66 to 77).\<close>

definition arrow_x :: "'n pyarith \<Rightarrow> 'n \<times> 'n \<Rightarrow> 'n \<times> 'n \<Rightarrow> 'n" where
  "arrow_x A from_pos to_pos =
     py_add A (fst from_pos) (py_mul A (py_0_9 A) (py_sub A (fst to_pos) (fst from_pos)))"

definition arrow_y :: "'n pyarith \<Rightarrow> 'n \<times> 'n \<Rightarrow> 'n \<times> 'n \<Rightarrow> 'n" where
  "arrow_y A from_pos to_pos =
     py_add A (snd from_pos) (py_mul A (py_0_9 A) (py_sub A (snd to_pos) (snd from_pos)))"

definition arrow_head :: "'n pyarith \<Rightarrow> 'n \<times> 'n \<Rightarrow> 'n \<times> 'n \<Rightarrow> 'n scatter" where
  "arrow_head A from_pos to_pos =
     \<lparr>trace_x = [arrow_x A from_pos to_pos], trace_y = [arrow_y A from_pos to_pos],
      mode = ''markers'', line = None,
      marker = Some \<lparr>symbol = Some ''triangle-right'', marker_size = 8,
                     marker_color = ''#13343B'', marker_line = None\<rparr>,
      trace_text = NoText, textposition = None, textfont = None,
      trace_name = None, showlegend = False, hoverinfo = ''skip'', hovertext = None\<rparr>"

text \<open>
  The loop over the edges (lines 47 to 77). The two lookups come first, \<open>from\<close> before
  \<open>to\<close>; a missing key ends the run with the \<open>KeyError\<close> of that key.
\<close>

fun add_edges :: "'n pyarith \<Rightarrow> (string \<rightharpoonup> 'n \<times> 'n) \<Rightarrow> edge list \<Rightarrow> 'n scatter list
    \<Rightarrow> error + 'n scatter list" where
  "add_edges A pos [] fig = Inr fig"
| "add_edges A pos (e # es) fig =
     (case pos (edge_from e) of
        None \<Rightarrow> Inl (KeyError (edge_from e))
      | Some from_pos \<Rightarrow>
          (case pos (edge_to e) of
             None \<Rightarrow> Inl (KeyError (edge_to e))
           | Some to_pos \<Rightarrow>
               add_edges A pos es (fig @ [edge_line from_pos to_pos, arrow_head A from_pos to_pos])))"

text \<open>
  \<open>str.title()\<close>: a cased character is upper-cased when the character before it is not
  cased and lower-cased when it is. Only the keys of \<open>type_colors\<close> reach the call (the
  colour lookup of the same trace comes first), so the ASCII letters are the cased
  characters that matter; other characters are kept and count as uncased.
\<close>

definition is_lower :: "char \<Rightarrow> bool" where
  "is_lower c = (97 \<le> (of_char c :: nat) \<and> (of_char c :: nat) \<le> 122)"

definition is_upper :: "char \<Rightarrow> bool" where
  "is_upper c = (65 \<le> (of_char c :: nat) \<and> (of_char c :: nat) \<le> 90)"

definition to_upper :: "char \<Rightarrow> char" where
  "to_upper c = (if is_lower c then char_of ((of_char c :: nat) - 32) else c)"

definition to_lower :: "char \<Rightarrow> char" where
  "to_lower c = (if is_upper c then char_of ((of_char c :: nat) + 32) else c)"

fun title_from :: "bool \<Rightarrow> string \<Rightarrow> string" where
  "title_from previous_is_cased [] = []"
| "title_from previous_is_cased (c # cs) =
     (if previous_is_cased then to_lower c else to_upper c)
       # title_from (is_lower c \<or> is_upper c) cs"

definition str_title :: "string \<Rightarrow> string" where
  "str_title s = title_from False s"

text \<open>The trace of a node (lines 81 to 96), given the colour found for its type.\<close>

definition node_trace :: "'n node \<Rightarrow> string \<Rightarrow> 'n scatter" where
  "node_trace n c =
     \<lparr>trace_x = [node_x n], trace_y = [node_y n],
      mode = ''markers+text'', line = None,
      marker = Some \<lparr>symbol = None, marker_size = 60, marker_color = c,
                     marker_line = Some \<lparr>line_color = ''#13343B'', line_width = 2\<rparr>\<rparr>,
      trace_text = Text (node_label n), textposition = Some ''middle center'',
      textfont = Some \<lparr>font_size = 10, font_color = ''black''\<rparr>,
      trace_name = Some (str_title (node_type n)), showlegend = True,
      hoverinfo = ''skip'', hovertext = None\<rparr>"

text \<open>The loop over the nodes (lines 80 to 96); \<open>type_colors[node["type"]]\<close> can raise.\<close>

fun add_nodes :: "'n node list \<Rightarrow> 'n scatter list \<Rightarrow> error + 'n scatter list" where
  "add_nodes [] fig = Inr fig"
| "add_nodes (n # ns) fig =
     (case type_colors (node_type n) of
        None \<Rightarrow> Inl (KeyError (node_type n))
      | Some c \<Rightarrow> add_nodes ns (fig @ [node_trace n c]))"

text \<open>
  The loop that removes duplicate legend entries (lines 99 to 105), with the set
  \<open>seen_types\<close> as its state. \<open>trace.name\<close> is truthy when it is set and not empty.
\<close>

fun dedup_legend :: "string set \<Rightarrow> 'n scatter list \<Rightarrow> 'n scatter list" where
  "dedup_legend seen_types [] = []"
| "dedup_legend seen_types (trace # traces) =
     (case trace_name trace of
        None \<Rightarrow> trace # dedup_legend seen_types traces
      | Some nm \<Rightarrow>
          if nm = [] then trace # dedup_legend seen_types traces
          else if nm \<in> seen_types then trace\<lparr>showlegend := False\<rparr> # dedup_legend seen_types traces
          else trace # dedup_legend (insert nm seen_types) traces)"

definition hidden_axis :: "rat \<times> rat \<Rightarrow> axis" where
  "hidden_axis r = \<lparr>showgrid = False, zeroline = False, showticklabels = False, axis_range = Some r\<rparr>"

definition flow_layout :: layout where
  "flow_layout =
     \<lparr>title = ''Mastra .af Agent Architecture'',
      xaxis = hidden_axis (- 20, 870), yaxis = hidden_axis (50, 400),
      plot_bgcolor = ''white'', paper_bgcolor = None, layout_showlegend = None\<rparr>"

text \<open>The whole script up to \<open>write_image\<close>: the figure, or the error that ends the run.\<close>

definition render_flow :: "'n pyarith \<Rightarrow> 'n chart_data \<Rightarrow> error + 'n figure" where
  "render_flow A d =
     (case add_edges A (node_positions (data_nodes d)) (data_edges d) [] of
        Inl e \<Rightarrow> Inl e
      | Inr fig1 \<Rightarrow>
          (case add_nodes (data_nodes d) fig1 of
             Inl e \<Rightarrow> Inl e
           | Inr fig2 \<Rightarrow> Inr \<lparr>data = dedup_legend {} fig2, layout = flow_layout\<rparr>))"

text \<open>The legend of a figure: the names of the traces that show a legend entry.\<close>

definition legend :: "'n figure \<Rightarrow> string option list" where
  "legend fig = map trace_name (filter showlegend (data fig))"

text \<open>The literal \<open>data\<close> of the script.\<close>

definition flow_data :: "rat chart_data" where
  "flow_data =
    \<lparr>data_nodes =
      [\<lparr>node_id = ''af_file'', node_label = ''.af File\<newline>(JSON)'', node_type = ''input'', node_x = 50, node_y = 200\<rparr>,
       \<lparr>node_id = ''validator'', node_label = ''Zod Schema\<newline>Validator'', node_type = ''process'', node_x = 200, node_y = 200\<rparr>,
       \<lparr>node_id = ''parser'', node_label = ''AF Parser'', node_type = ''process'', node_x = 350, node_y = 200\<rparr>,
       \<lparr>node_id = ''memory_converter'', node_label = ''Memory\<newline>Converter'', node_type = ''process'', node_x = 500, node_y = 100\<rparr>,
       \<lparr>node_id = ''tool_converter'', node_label = ''Tool\<newline>Converter'', node_type = ''process'', node_x = 500, node_y = 200\<rparr>,
       \<lparr>node_id = ''config_converter'', node_label = ''Config\<newline>Converter'', node_type = ''process'', node_x = 500, node_y = 300\<rparr>,
       \<lparr>node_id = ''agent_factory'', node_label = ''Mastra Agent\<newline>Factory'', node_type = ''process'', node_x = 650, node_y = 200\<rparr>,
       \<lparr>node_id = ''mastra_agent'', node_label = ''Mastra Agent\<newline>Instance'', node_type = ''output'', node_x = 800, node_y = 200\<rparr>,
       \<lparr>node_id = ''export_serializer'', node_label = ''Export\<newline>Serializer'', node_type = ''process'', node_x = 650, node_y = 350\<rparr>,
       \<lparr>node_id = ''export_af'', node_label = ''Exported\<newline>.af File'', node_type = ''output'', node_x = 800, node_y = 350\<rparr>],
     data_edges =
      [\<lparr>edge_from = ''af_file'', edge_to = ''validator'', edge_label = ''Parse JSON''\<rparr>,
       \<lparr>edge_from = ''validator'', edge_to = ''parser'', edge_label = ''Valid .af''\<rparr>,
       \<lparr>edge_from = ''parser'', edge_to = ''memory_converter'', edge_label = ''Core Memory +\<newline>Messages''\<rparr>,
       \<lparr>edge_from = ''parser'', edge_to = ''tool_converter'', edge_label = ''Tools +\<newline>Tool Rules''\<rparr>,
       \<lparr>edge_from = ''parser'', edge_to = ''config_converter'', edge_label = ''LLM Config +\<newline>Embedding Config''\<rparr>,
       \<lparr>edge_from = ''memory_converter'', edge_to = ''agent_factory'', edge_label = ''Memory Object''\<rparr>,
       \<lparr>edge_from = ''tool_converter'', edge_to = ''agent_factory'', edge_label = ''Tools Array''\<rparr>,
       \<lparr>edge_from = ''config_converter'', edge_to = ''agent_factory'', edge_label = ''Model Config''\<rparr>,
       \<lparr>edge_from = ''agent_factory'', edge_to = ''mastra_agent'', edge_label = ''Create Agent''\<rparr>,
       \<lparr>edge_from = ''mastra_agent'', edge_to = ''export_serializer'', edge_label = ''Export Request''\<rparr>,
       \<lparr>edge_from = ''export_serializer'', edge_to = ''export_af'', edge_label = ''Serialize to .af''\<rparr>]\<rparr>"

section \<open>The Hierarchy-Tree Renderer (chart\_script\_1.py)\<close>

text \<open>
  \<open>nodes\<close> is a dictionary from a name to \<open>{'x': .., 'y': .., 'level': ..}\<close>, modelled by
  the list of its items in insertion order (a dictionary has no key twice, so the keys of
  the list are distinct); \<open>nodes[name]\<close> is the lookup in that list. \<open>connections\<close> is a
  list of pairs of names.
\<close>

record 'n tree_node =
  tree_x :: 'n
  tree_y :: 'n
  level :: int

definition colors :: "string list" where
  "colors = [''#1FB8CD'', ''#FFC185'', ''#ECEBD5'']"

text \<open>The line trace of a connection (lines 79 to 86).\<close>

definition connection_line :: "'n tree_node \<Rightarrow> 'n tree_node \<Rightarrow> 'n scatter" where
  "connection_line p c =
     \<lparr>trace_x = [tree_x p, tree_x c], trace_y = [tree_y p, tree_y c],
      mode = ''lines'', line = Some \<lparr>line_color = ''#5D878F'', line_width = 2\<rparr>,
      marker = None, trace_text = NoText, textposition = None, textfont = None,
      trace_name = None, showlegend = False, hoverinfo = ''skip'', hovertext = None\<rparr>"

text \<open>
  The loop over the connections (lines 78 to 86): \<open>nodes[parent]\<close> is evaluated before
  \<open>nodes[child]\<close>, and a missing key ends the run with its \<open>KeyError\<close>.
\<close>

fun add_connections :: "(string \<times> 'n tree_node) list \<Rightarrow> (string \<times> string) list
    \<Rightarrow> 'n scatter list \<Rightarrow> error + 'n scatter list" where
  "add_connections nodes [] fig = Inr fig"
| "add_connections nodes ((parent, child) # rest) fig =
     (case map_of nodes parent of
        None \<Rightarrow> Inl (KeyError parent)
      | Some p \<Rightarrow>
          (case map_of nodes child of
             None \<Rightarrow> Inl (KeyError child)
           | Some c \<Rightarrow> add_connections nodes rest (fig @ [connection_line p c])))"

text \<open>\<open>level_nodes = [name for name, data in nodes.items() if data['level'] == level]\<close>\<close>

definition level_nodes :: "(string \<times> 'n tree_node) list \<Rightarrow> nat \<Rightarrow> string list" where
  "level_nodes nodes lv = map fst (filter (\<lambda>(name, d). level d = int lv) nodes)"

text \<open>\<open>[nodes[name] for name in level_nodes]\<close>, the lookups of the two coordinate lists.\<close>

fun lookup_each :: "(string \<times> 'v) list \<Rightarrow> string list \<Rightarrow> error + 'v list" where
  "lookup_each nodes [] = Inr []"
| "lookup_each nodes (name # names) =
     (case map_of nodes name of
        None \<Rightarrow> Inl (KeyError name)
      | Some d \<Rightarrow>
          (case lookup_each nodes names of
             Inl e \<Rightarrow> Inl e
           | Inr ds \<Rightarrow> Inr (d # ds)))"

text \<open>
  The two tiers, \<open>[20 if level == 0 else 15 if level == 1 else 12][0]\<close> for the marker
  and \<open>[14 if level == 0 else 11 if level == 1 else 9][0]\<close> for the font.
\<close>

definition level_marker_size :: "nat \<Rightarrow> nat" where
  "level_marker_size lv = (if lv = 0 then 20 else if lv = 1 then 15 else 12)"

definition level_font_size :: "nat \<Rightarrow> nat" where
  "level_font_size lv = (if lv = 0 then 14 else if lv = 1 then 11 else 9)"

text \<open>
  The trace of one level (lines 92 to 110). \<open>colors[level]\<close> is read for the levels of
  \<open>range(3)\<close> only, which are inside the list.
\<close>

definition level_trace :: "nat \<Rightarrow> string list \<Rightarrow> 'n tree_node list \<Rightarrow> 'n scatter" where
  "level_trace lv names ds =
     \<lparr>trace_x = map tree_x ds, trace_y = map tree_y ds,
      mode = ''markers+text'', line = None,
      marker = Some \<lparr>symbol = None, marker_size = level_marker_size lv,
                     marker_color = colors ! lv,
                     marker_line = Some \<lparr>line_color = ''white'', line_width = 2\<rparr>\<rparr>,
      trace_text = Texts names, textposition = Some ''middle center'',
      textfont = Some \<lparr>font_size = level_font_size lv, font_color = ''black''\<rparr>,
      trace_name = None, showlegend = False,
      hoverinfo = ''text'', hovertext = Some names\<rparr>"

text \<open>The loop over the levels (lines 89 to 110); a level without nodes adds no trace.\<close>

fun add_levels :: "(string \<times> 'n tree_node) list \<Rightarrow> nat list \<Rightarrow> 'n scatter list
    \<Rightarrow> error + 'n scatter list" where
  "add_levels nodes [] fig = Inr fig"
| "add_levels nodes (lv # lvs) fig =
     (if level_nodes nodes lv = [] then add_levels nodes lvs fig
      else
        (case lookup_each nodes (level_nodes nodes lv) of
           Inl e \<Rightarrow> Inl e
         | Inr ds \<Rightarrow> add_levels nodes lvs (fig @ [level_trace lv (level_nodes nodes lv) ds])))"

definition bare_axis :: "rat \<times> rat \<Rightarrow> axis" where
  "bare_axis r = \<lparr>showgrid = False, zeroline = False, showticklabels = False, axis_range = Some r\<rparr>"

text \<open>\<open>update_layout\<close> followed by \<open>update_xaxes\<close> and \<open>update_yaxes\<close> (lines 113 to 123).\<close>

definition tree_layout :: layout where
  "tree_layout =
     \<lparr>title = ''AgentSchema Hierarchical Structure'',
      xaxis = bare_axis (- 5, 7), yaxis = bare_axis (5 / 2, 11 / 2),
      plot_bgcolor = ''rgba(0,0,0,0)'', paper_bgcolor = Some ''rgba(0,0,0,0)'',
      layout_showlegend = Some False\<rparr>"

text \<open>The whole script up to \<open>write_image\<close>; \<open>range(3)\<close> is the list of the three levels.\<close>

definition render_tree :: "(string \<times> 'n tree_node) list \<Rightarrow> (string \<times> string) list
    \<Rightarrow> error + 'n figure" where
  "render_tree nodes connections =
     (case add_connections nodes connections [] of
        Inl e \<Rightarrow> Inl e
      | Inr fig1 \<Rightarrow>
          (case add_levels nodes [0, 1, 2] fig1 of
             Inl e \<Rightarrow> Inl e
           | Inr fig2 \<Rightarrow> Inr \<lparr>data = fig2, layout = tree_layout\<rparr>))"

text \<open>The names that a trace draws, read from its \<open>text\<close>.\<close>

fun text_names :: "textattr \<Rightarrow> string list" where
  "text_names NoText = []"
| "text_names (Text s) = [s]"
| "text_names (Texts ss) = ss"

text \<open>The literals \<open>nodes\<close> and \<open>connections\<close> of the script.\<close>

definition tree_nodes :: "(string \<times> rat tree_node) list" where
  "tree_nodes =
    [(''AgentSchema'', \<lparr>tree_x = 0, tree_y = 5, level = 0\<rparr>),
     (''Core Fields'', \<lparr>tree_x = - 3, tree_y = 4, level = 1\<rparr>),
     (''Configuration'', \<lparr>tree_x = - 1, tree_y = 4, level = 1\<rparr>),
     (''Memory & Msgs'', \<lparr>tree_x = 1, tree_y = 4, level = 1\<rparr>),
     (''Tooling'', \<lparr>tree_x = 3, tree_y = 4, level = 1\<rparr>),
     (''Metadata'', \<lparr>tree_x = 5, tree_y = 4, level = 1\<rparr>),
     (''agent_type'', \<lparr>tree_x = - 4, tree_y = 3, level = 2\<rparr>),
     (''name'', \<lparr>tree_x = - (7 / 2), tree_y = 3, level = 2\<rparr>),
     (''system'', \<lparr>tree_x = - (5 / 2), tree_y = 3, level = 2\<rparr>),
     (''version'', \<lparr>tree_x = - 2, tree_y = 3, level = 2\<rparr>),
     (''llm_config'', \<lparr>tree_x = - (13 / 10), tree_y = 3, level = 2\<rparr>),
     (''embed_config'', \<lparr>tree_x = - (7 / 10), tree_y = 3, level = 2\<rparr>),
     (''core_memory'', \<lparr>tree_x = 1 / 2, tree_y = 3, level = 2\<rparr>),
     (''messages'', \<lparr>tree_x = 1, tree_y = 3, level = 2\<rparr>),
     (''msg_indices'', \<lparr>tree_x = 3 / 2, tree_y = 3, level = 2\<rparr>),
     (''tools'', \<lparr>tree_x = 5 / 2, tree_y = 3, level = 2\<rparr>),
     (''tool_rules'', \<lparr>tree_x = 3, tree_y = 3, level = 2\<rparr>),
     (''tool_env_vars'', \<lparr>tree_x = 7 / 2, tree_y = 3, level = 2\<rparr>),
     (''tags'', \<lparr>tree_x = 9 / 2, tree_y = 3, level = 2\<rparr>),
     (''metadata_'', \<lparr>tree_x = 5, tree_y = 3, level = 2\<rparr>),
     (''created_at'', \<lparr>tree_x = 11 / 2, tree_y = 3, level = 2\<rparr>),
     (''updated_at'', \<lparr>tree_x = 6, tree_y = 3, level = 2\<rparr>)]"

definition connections :: "(string \<times> string) list" where
  "connections =
    [(''AgentSchema'', ''Core Fields''),
     (''AgentSchema'', ''Configuration''),
     (''AgentSchema'', ''Memory & Msgs''),
     (''AgentSchema'', ''Tooling''),
     (''AgentSchema'', ''Metadata''),
     (''Core Fields'', ''agent_type''),
     (''Core Fields'', ''name''),
     (''Core Fields'', ''system''),
     (''Core Fields'', ''version''),
     (''Configuration'', ''llm_config''),
     (''Configuration'', ''embed_config''),
     (''Memory & Msgs'', ''core_memory''),
     (''Memory & Msgs'', ''messages''),
     (''Memory & Msgs'', ''msg_indices''),
     (''Tooling'', ''tools''),
     (''Tooling'', ''tool_rules''),
     (''Tooling'', ''tool_env_vars''),
     (''Metadata'', ''tags''),
     (''Metadata'', ''metadata_''),
     (''Metadata'', ''created_at''),
     (''Metadata'', ''updated_at'')]"

section \<open>Properties of the Mapping Flattener\<close>

text \<open>
  The loops only ever append to \<open>rows\<close>, so each of them is the list it was given
  followed by what it adds, and what it adds is a map over the items in their order.
\<close>

lemma append_details_map:
  "append_details c s kvs rows =
     rows @ map (\<lambda>(k, v). \<lparr>Category = c, Subcategory = s, Field = k, Description = v\<rparr>) kvs"
  by (induction kvs arbitrary: rows) auto

lemma append_items_concat:
  "append_items c its rows =
     rows @ concat (map (\<lambda>(s, details). case details of
         PDict kvs \<Rightarrow> map (\<lambda>(k, v). \<lparr>Category = c, Subcategory = s, Field = k, Description = v\<rparr>) kvs
       | PStr d \<Rightarrow> [\<lparr>Category = c, Subcategory = s, Field = '''', Description = details\<rparr>]) its)"
proof (induction its arbitrary: rows)
  case Nil
  show ?case by simp
next
  case (Cons it its)
  obtain s details where it: "it = (s, details)" by (cases it)
  show ?case
    by (cases details) (simp_all add: it Cons.IH append_details_map)
qed

lemma flatten_loop_concat:
  "flatten_loop m rows =
     rows @ concat (map (\<lambda>(c, items). case items of
         PDict its \<Rightarrow> append_items c its []
       | PStr d \<Rightarrow> []) m)"
proof (induction m arbitrary: rows)
  case Nil
  show ?case by simp
next
  case (Cons p m)
  obtain c items where p: "p = (c, items)" by (cases p)
  show ?case
    by (cases items) (simp_all add: p Cons.IH append_items_concat)
qed

text \<open>
  C3. The rows are the items of the mapping read in declaration order: the top-level
  keys in their order, under each of them the subcategories in their order, under each
  of those the fields in their order. The flattener is the nested comprehension that
  visits the three levels from first to last, and on the mapping of the specification's
  example it gives the row of \<open>f1\<close> followed by the row of \<open>f2\<close>.
\<close>

theorem flatten_mirrors_declaration_order:
  "flatten_mapping m =
     concat (map (\<lambda>(category, items). case items of
         PDict its \<Rightarrow> concat (map (\<lambda>(subcategory, details). case details of
             PDict kvs \<Rightarrow> map (\<lambda>(key, val). \<lparr>Category = category, Subcategory = subcategory,
                                              Field = key, Description = val\<rparr>) kvs
           | PStr d \<Rightarrow> [\<lparr>Category = category, Subcategory = subcategory, Field = '''',
                          Description = details\<rparr>]) its)
       | PStr d \<Rightarrow> []) m)
   \<and> flatten_mapping [(''A'', PDict [(''B'', PDict [(''f1'', PStr ''d1''), (''f2'', PStr ''d2'')])])]
       = [\<lparr>Category = ''A'', Subcategory = ''B'', Field = ''f1'', Description = PStr ''d1''\<rparr>,
          \<lparr>Category = ''A'', Subcategory = ''B'', Field = ''f2'', Description = PStr ''d2''\<rparr>]"
proof
  show "flatten_mapping [(''A'', PDict [(''B'', PDict [(''f1'', PStr ''d1''), (''f2'', PStr ''d2'')])])]
       = [\<lparr>Category = ''A'', Subcategory = ''B'', Field = ''f1'', Description = PStr ''d1''\<rparr>,
          \<lparr>Category = ''A'', Subcategory = ''B'', Field = ''f2'', Description = PStr ''d2''\<rparr>]"
    by (simp add: flatten_mapping_def)
next
  show "flatten_mapping m =
     concat (map (\<lambda>(category, items). case items of
         PDict its \<Rightarrow> concat (map (\<lambda>(subcategory, details). case details of
             PDict kvs \<Rightarrow> map (\<lambda>(key, val). \<lparr>Category = category, Subcategory = subcategory,
                                              Field = key, Description = val\<rparr>) kvs
           | PStr d \<Rightarrow> [\<lparr>Category = category, Subcategory = subcategory, Field = '''',
                          Description = details\<rparr>]) its)
       | PStr d \<Rightarrow> []) m)"
    unfolding flatten_mapping_def flatten_loop_concat[of m "[]"]
    by (simp add: append_items_concat[of _ _ "[]"])
qed

text \<open>
  C5. A subcategory whose value is a bare description string gives exactly one row, with
  the empty Field and the string as Description, at the place of the subcategory: the
  rows before it are those of the subcategories and categories declared before it, the
  rows after it those declared after it. On the specification's example the result is
  that single row.
\<close>

theorem bare_description_gives_one_row:
  "flatten_mapping (pre @ [(category, PDict (before @ [(subcategory, PStr d)] @ after))] @ post)
     = flatten_mapping (pre @ [(category, PDict before)])
       @ [\<lparr>Category = category, Subcategory = subcategory, Field = '''', Description = PStr d\<rparr>]
       @ flatten_mapping ([(category, PDict after)] @ post)
   \<and> flatten_mapping [(''A'', PDict [(''B'', PStr ''plain description'')])]
       = [\<lparr>Category = ''A'', Subcategory = ''B'', Field = '''',
           Description = PStr ''plain description''\<rparr>]"
  by (simp add: flatten_mapping_def flatten_loop_concat[of _ "[]"] append_items_concat[of _ _ "[]"])

text \<open>Every row carries the top-level key under which it was found.\<close>

lemma append_details_category:
  "r \<in> set (append_details c s kvs rows) \<Longrightarrow> r \<in> set rows \<or> Category r = c"
  unfolding append_details_map by auto

lemma append_items_category:
  "r \<in> set (append_items c its rows) \<Longrightarrow> r \<in> set rows \<or> Category r = c"
proof (induction its arbitrary: rows)
  case Nil
  then show ?case by simp
next
  case (Cons it its)
  obtain s details where it: "it = (s, details)" by (cases it)
  show ?case
  proof (cases details)
    case (PStr d)
    with Cons.prems have "r \<in> set (append_items c its (rows @ [\<lparr>Category = c, Subcategory = s,
        Field = '''', Description = details\<rparr>]))"
      by (simp add: it)
    from Cons.IH[OF this] show ?thesis by auto
  next
    case (PDict kvs)
    with Cons.prems have "r \<in> set (append_items c its (append_details c s kvs rows))"
      by (simp add: it)
    from Cons.IH[OF this] show ?thesis using append_details_category[of r c s kvs rows] by auto
  qed
qed

lemma flatten_loop_category:
  "r \<in> set (flatten_loop m rows) \<Longrightarrow> r \<in> set rows \<or> Category r \<in> fst ` set m"
proof (induction m arbitrary: rows)
  case Nil
  then show ?case by simp
next
  case (Cons p m)
  obtain c items where p: "p = (c, items)" by (cases p)
  show ?case
  proof (cases items)
    case (PStr d)
    with Cons.prems Cons.IH[of rows] show ?thesis by (auto simp: p)
  next
    case (PDict its)
    with Cons.prems have "r \<in> set (flatten_loop m (append_items c its rows))" by (simp add: p)
    from Cons.IH[OF this] show ?thesis using append_items_category[of r c its rows] by (auto simp: p)
  qed
qed

lemma flatten_categories:
  "r \<in> set (flatten_mapping m) \<Longrightarrow> Category r \<in> fst ` set m"
  using flatten_loop_category[of r m "[]"] by (simp add: flatten_mapping_def)

lemma rows_of_literal:
  "length (flatten_mapping af_to_mastra_mapping) = 32"
  "count_category ''Component Mapping'' (flatten_mapping af_to_mastra_mapping) = 26"
  "count_category ''Key Differences'' (flatten_mapping af_to_mastra_mapping) = 6"
  by (simp_all add: count_category_def flatten_mapping_def af_to_mastra_mapping_def)

text \<open>
  C10. Every row that the flattener produces from the script's mapping has the Category
  \<open>Component Mapping\<close> or \<open>Key Differences\<close>, the two top-level keys, so the two counts
  of the summary lines (26 and 6) add up to the number of rows (32), one CSV data line
  each.
\<close>

theorem summary_counts_partition_rows:
  "(\<forall>r \<in> set (flatten_mapping af_to_mastra_mapping).
      Category r = ''Component Mapping'' \<or> Category r = ''Key Differences'')
   \<and> count_category ''Component Mapping'' (flatten_mapping af_to_mastra_mapping)
     + count_category ''Key Differences'' (flatten_mapping af_to_mastra_mapping)
     = length (flatten_mapping af_to_mastra_mapping)"
proof
  show "\<forall>r \<in> set (flatten_mapping af_to_mastra_mapping).
      Category r = ''Component Mapping'' \<or> Category r = ''Key Differences''"
    using flatten_categories[of _ af_to_mastra_mapping]
    by (auto simp: af_to_mastra_mapping_def)
next
  show "count_category ''Component Mapping'' (flatten_mapping af_to_mastra_mapping)
     + count_category ''Key Differences'' (flatten_mapping af_to_mastra_mapping)
     = length (flatten_mapping af_to_mastra_mapping)"
    by (simp add: rows_of_literal)
qed

theorem summary_counts_partition_rows_witness:
  "\<lparr>Category = ''Key Differences'', Subcategory = ''Tool Definitions'', Field = ''af_approach'',
     Description = PStr ''Complete tool source code + JSON schema''\<rparr>
     \<in> set (flatten_mapping af_to_mastra_mapping)
   \<and> (Category \<lparr>Category = ''Key Differences'', Subcategory = ''Tool Definitions'',
         Field = ''af_approach'', Description = PStr ''Complete tool source code + JSON schema''\<rparr>
         = ''Component Mapping''
      \<or> Category \<lparr>Category = ''Key Differences'', Subcategory = ''Tool Definitions'',
         Field = ''af_approach'', Description = PStr ''Complete tool source code + JSON schema''\<rparr>
         = ''Key Differences'')
   \<and> 26 + 6 = length (flatten_mapping af_to_mastra_mapping)"
proof -
  have mem: "\<lparr>Category = ''Key Differences'', Subcategory = ''Tool Definitions'',
      Field = ''af_approach'', Description = PStr ''Complete tool source code + JSON schema''\<rparr>
     \<in> set (flatten_mapping af_to_mastra_mapping)"
    by (simp add: flatten_mapping_def af_to_mastra_mapping_def)
  from summary_counts_partition_rows mem show ?thesis
    by (simp add: rows_of_literal)
qed

section \<open>Properties of the Flow-Diagram Renderer\<close>

text \<open>
  The dictionary \<open>node_positions\<close> has the ids of the nodes as its keys, and where the
  ids are distinct it maps the id of a node to the coordinates of that node.
\<close>

lemma foldl_positions_other:
  "k \<notin> node_id ` set ns \<Longrightarrow>
     foldl (\<lambda>m n. m(node_id n \<mapsto> (node_x n, node_y n))) m0 ns k = m0 k"
  by (induction ns arbitrary: m0) auto

lemma foldl_positions_dom:
  "dom (foldl (\<lambda>m n. m(node_id n \<mapsto> (node_x n, node_y n))) m0 ns) = dom m0 \<union> node_id ` set ns"
  by (induction ns arbitrary: m0) auto

lemma dom_node_positions: "dom (node_positions ns) = node_id ` set ns"
  by (simp add: node_positions_def foldl_positions_dom)

lemma foldl_positions_distinct:
  "distinct (map node_id ns) \<Longrightarrow> n \<in> set ns \<Longrightarrow>
     foldl (\<lambda>m n. m(node_id n \<mapsto> (node_x n, node_y n))) m0 ns (node_id n) = Some (node_x n, node_y n)"
proof (induction ns arbitrary: m0)
  case Nil
  then show ?case by simp
next
  case (Cons a ns)
  show ?case
  proof (cases "n = a")
    case True
    with Cons.prems have "node_id a \<notin> node_id ` set ns" by simp
    from foldl_positions_other[OF this, of "m0(node_id a \<mapsto> (node_x a, node_y a))"]
    show ?thesis unfolding True by (simp only: foldl.simps fun_upd_same)
  next
    case False
    with Cons.prems show ?thesis using Cons.IH by simp
  qed
qed

lemma node_positions_distinct:
  "distinct (map node_id ns) \<Longrightarrow> n \<in> set ns \<Longrightarrow>
     node_positions ns (node_id n) = Some (node_x n, node_y n)"
  by (simp add: node_positions_def foldl_positions_distinct)

text \<open>
  The loop over the edges: when it returns, it has appended the line and the arrowhead of
  each edge, in the order of the edges; it returns exactly when no endpoint is missing,
  and otherwise raises the \<open>KeyError\<close> of the first missing endpoint.
\<close>

lemma add_edges_Inr:
  "add_edges A pos es fig = Inr r \<Longrightarrow>
     r = fig @ concat (map (\<lambda>e. [edge_line (the (pos (edge_from e))) (the (pos (edge_to e))),
                                  arrow_head A (the (pos (edge_from e))) (the (pos (edge_to e)))]) es)"
proof (induction es arbitrary: fig)
  case Nil
  then show ?case by simp
next
  case (Cons e es)
  from Cons.prems obtain fp tp where fp: "pos (edge_from e) = Some fp" and tp: "pos (edge_to e) = Some tp"
    by (auto split: option.splits)
  with Cons.prems have "add_edges A pos es (fig @ [edge_line fp tp, arrow_head A fp tp]) = Inr r"
    by simp
  from Cons.IH[OF this] show ?case by (simp add: fp tp)
qed

lemma add_edges_Inr_dom:
  "add_edges A pos es fig = Inr r \<Longrightarrow> e \<in> set es \<Longrightarrow> edge_from e \<in> dom pos \<and> edge_to e \<in> dom pos"
  by (induction es arbitrary: fig) (auto split: option.splits)


lemma add_edges_total:
  "find (\<lambda>n. pos n = None) (concat (map (\<lambda>e. [edge_from e, edge_to e]) es)) = None \<Longrightarrow>
     \<exists>r. add_edges A pos es fig = Inr r"
  by (induction es arbitrary: fig) (auto split: option.splits if_splits)

lemma pairs_nth:
  "i < length es \<Longrightarrow> concat (map (\<lambda>e. [f e, g e]) es) ! (2 * i) = f (es ! i)
     \<and> concat (map (\<lambda>e. [f e, g e]) es) ! (2 * i + 1) = g (es ! i)"
proof (induction es arbitrary: i)
  case Nil
  then show ?case by simp
next
  case (Cons e es)
  show ?case
  proof (cases i)
    case 0
    then show ?thesis by simp
  next
    case (Suc j)
    with Cons.prems have "j < length es" by simp
    from Cons.IH[OF this] show ?thesis by (simp add: Suc)
  qed
qed

lemma pairs_length: "length (concat (map (\<lambda>e. [f e, g e]) es)) = 2 * length es"
  by (induction es) auto

text \<open>The loop over the nodes appends one trace per node.\<close>

lemma add_nodes_Inr:
  "add_nodes ns fig = Inr r \<Longrightarrow>
     r = fig @ map (\<lambda>n. node_trace n (the (type_colors (node_type n)))) ns"
proof (induction ns arbitrary: fig)
  case Nil
  then show ?case by simp
next
  case (Cons n ns)
  from Cons.prems obtain c where c: "type_colors (node_type n) = Some c"
    by (auto split: option.splits)
  with Cons.prems have "add_nodes ns (fig @ [node_trace n c]) = Inr r" by simp
  from Cons.IH[OF this] show ?case by (simp add: c)
qed

lemma add_nodes_Inr_dom:
  "add_nodes ns fig = Inr r \<Longrightarrow> n \<in> set ns \<Longrightarrow> node_type n \<in> dom type_colors"
  by (induction ns arbitrary: fig) (auto split: option.splits)

text \<open>
  The legend loop changes nothing but \<open>showlegend\<close>, passes over unnamed traces, and
  among the traces of one name leaves the legend entry of the first only.
\<close>

lemma dedup_legend_unnamed:
  "\<forall>t \<in> set ts. trace_name t = None \<Longrightarrow> dedup_legend seen (ts @ us) = ts @ dedup_legend seen us"
  by (induction ts) auto

lemma dedup_legend_length: "length (dedup_legend seen ts) = length ts"
  by (induction ts arbitrary: seen) (auto split: option.splits)

lemma dedup_legend_count:
  assumes "nm \<noteq> []" "\<forall>t \<in> set ts. trace_name t = Some nm \<longrightarrow> showlegend t"
  shows "length (filter (\<lambda>t. showlegend t \<and> trace_name t = Some nm) (dedup_legend seen ts))
           = (if nm \<notin> seen \<and> Some nm \<in> trace_name ` set ts then 1 else 0)"
  using assms(2)
proof (induction ts arbitrary: seen)
  case Nil
  show ?case by simp
next
  case (Cons t ts)
  then have IH: "length (filter (\<lambda>t. showlegend t \<and> trace_name t = Some nm) (dedup_legend seen' ts))
           = (if nm \<notin> seen' \<and> Some nm \<in> trace_name ` set ts then 1 else 0)" for seen'
    by simp
  show ?case
  proof (cases "trace_name t")
    case None
    then show ?thesis using IH[of seen] by auto
  next
    case (Some n')
    show ?thesis
    proof (cases "n' = nm")
      case True
      with Some Cons.prems have "showlegend t" by simp
      with True Some assms(1) show ?thesis using IH[of seen] IH[of "insert nm seen"] by auto
    next
      case False
      with Some show ?thesis using IH[of seen] IH[of "insert n' seen"] by auto
    qed
  qed
qed

lemma dedup_legend_first:
  assumes "\<forall>t \<in> set ts. \<exists>nm. trace_name t = Some nm \<and> nm \<noteq> [] \<and> showlegend t" "i < length ts"
  shows "showlegend (dedup_legend seen ts ! i)
           \<longleftrightarrow> trace_name (ts ! i) \<notin> Some ` seen \<union> trace_name ` set (take i ts)"
  using assms
proof (induction ts arbitrary: seen i)
  case Nil
  then show ?case by simp
next
  case (Cons t ts)
  from Cons.prems obtain nm where nm: "trace_name t = Some nm" "nm \<noteq> []" "showlegend t" by auto
  show ?case
  proof (cases i)
    case 0
    with nm show ?thesis by auto
  next
    case (Suc j)
    with Cons.prems have j: "j < length ts" by simp
    have rest: "\<forall>t \<in> set ts. \<exists>nm. trace_name t = Some nm \<and> nm \<noteq> [] \<and> showlegend t"
      using Cons.prems by simp
    show ?thesis using Cons.IH[OF rest j, of seen] Cons.IH[OF rest j, of "insert nm seen"] nm
      by (auto simp: Suc)
  qed
qed

lemma dedup_legend_fields:
  "i < length ts \<Longrightarrow> dedup_legend seen ts ! i = (ts ! i)\<lparr>showlegend := showlegend (dedup_legend seen ts ! i)\<rparr>"
proof (induction ts arbitrary: seen i)
  case Nil
  then show ?case by simp
next
  case (Cons t ts)
  show ?case
  proof (cases i)
    case 0
    then show ?thesis by (auto split: option.splits)
  next
    case (Suc j)
    with Cons.prems have j: "j < length ts" by simp
    show ?thesis using Cons.IH[OF j] by (auto simp: Suc split: option.splits)
  qed
qed

lemma title_from_Nil: "title_from b s = [] \<longleftrightarrow> s = []"
  by (cases s) auto

lemma title_keys:
  "str_title ''input'' = ''Input''" "str_title ''process'' = ''Process''" "str_title ''output'' = ''Output''"
  by code_simp+

lemma dom_type_colors: "dom type_colors = {''input'', ''process'', ''output''}"
  by (auto simp: type_colors_def split: if_splits)

lemma title_inj_keys:
  "s \<in> dom type_colors \<Longrightarrow> t \<in> dom type_colors \<Longrightarrow> str_title s = str_title t \<longleftrightarrow> s = t"
  unfolding dom_type_colors by (auto simp: title_keys)

text \<open>The traces of a figure that the script produced: the edges, then the nodes.\<close>

lemma render_flow_data:
  assumes "render_flow A d = Inr fig"
  shows "data fig =
     concat (map (\<lambda>e. [edge_line (the (node_positions (data_nodes d) (edge_from e)))
                                 (the (node_positions (data_nodes d) (edge_to e))),
                       arrow_head A (the (node_positions (data_nodes d) (edge_from e)))
                                    (the (node_positions (data_nodes d) (edge_to e)))]) (data_edges d))
     @ dedup_legend {} (map (\<lambda>n. node_trace n (the (type_colors (node_type n)))) (data_nodes d))"
proof -
  from assms obtain fig1 fig2 where
    1: "add_edges A (node_positions (data_nodes d)) (data_edges d) [] = Inr fig1" and
    2: "add_nodes (data_nodes d) fig1 = Inr fig2" and
    3: "fig = \<lparr>data = dedup_legend {} fig2, layout = flow_layout\<rparr>"
    by (auto simp: render_flow_def split: sum.splits)
  have unnamed: "\<forall>t \<in> set fig1. trace_name t = None"
    unfolding add_edges_Inr[OF 1] by (auto simp: edge_line_def arrow_head_def)
  show ?thesis
    unfolding 3 add_nodes_Inr[OF 2] 
    using dedup_legend_unnamed[OF unnamed] add_edges_Inr[OF 1] by simp
qed

text \<open>
  What a successful run says about its input, and where the two traces of the edge
  number \<open>i\<close> are in the figure: the line at \<open>2 * i\<close>, the arrowhead at \<open>2 * i + 1\<close>.
\<close>

lemma render_flow_Inr_edges:
  assumes "render_flow A d = Inr fig" "e \<in> set (data_edges d)"
  shows "edge_from e \<in> node_id ` set (data_nodes d) \<and> edge_to e \<in> node_id ` set (data_nodes d)"
proof -
  from assms(1) obtain fig1 where
    "add_edges A (node_positions (data_nodes d)) (data_edges d) [] = Inr fig1"
    by (auto simp: render_flow_def split: sum.splits)
  from add_edges_Inr_dom[OF this assms(2)] show ?thesis by (simp add: dom_node_positions)
qed

lemma render_flow_Inr_types:
  assumes "render_flow A d = Inr fig" "n \<in> set (data_nodes d)"
  shows "node_type n \<in> dom type_colors"
proof -
  from assms(1) obtain fig1 fig2 where "add_nodes (data_nodes d) fig1 = Inr fig2"
    by (auto simp: render_flow_def split: sum.splits)
  from add_nodes_Inr_dom[OF this assms(2)] show ?thesis .
qed

lemma render_flow_arrow:
  assumes "render_flow A d = Inr fig" "i < length (data_edges d)"
  shows "data fig ! (2 * i + 1) =
     arrow_head A (the (node_positions (data_nodes d) (edge_from (data_edges d ! i))))
                  (the (node_positions (data_nodes d) (edge_to (data_edges d ! i))))"
proof -
  let ?f = "\<lambda>e. edge_line (the (node_positions (data_nodes d) (edge_from e)))
                           (the (node_positions (data_nodes d) (edge_to e)))"
  let ?g = "\<lambda>e. arrow_head A (the (node_positions (data_nodes d) (edge_from e)))
                              (the (node_positions (data_nodes d) (edge_to e)))"
  have "2 * i + 1 < length (concat (map (\<lambda>e. [?f e, ?g e]) (data_edges d)))"
    using assms(2) by (simp add: pairs_length)
  then have "data fig ! (2 * i + 1) = concat (map (\<lambda>e. [?f e, ?g e]) (data_edges d)) ! (2 * i + 1)"
    unfolding render_flow_data[OF assms(1)] by (simp only: nth_append if_True)
  then show ?thesis
    using pairs_nth[OF assms(2), where f = ?f and g = ?g] by simp
qed

lemma render_flow_line:
  assumes "render_flow A d = Inr fig" "i < length (data_edges d)"
  shows "data fig ! (2 * i) =
     edge_line (the (node_positions (data_nodes d) (edge_from (data_edges d ! i))))
               (the (node_positions (data_nodes d) (edge_to (data_edges d ! i))))"
proof -
  let ?f = "\<lambda>e. edge_line (the (node_positions (data_nodes d) (edge_from e)))
                           (the (node_positions (data_nodes d) (edge_to e)))"
  let ?g = "\<lambda>e. arrow_head A (the (node_positions (data_nodes d) (edge_from e)))
                              (the (node_positions (data_nodes d) (edge_to e)))"
  have "2 * i < length (concat (map (\<lambda>e. [?f e, ?g e]) (data_edges d)))"
    using assms(2) by (simp add: pairs_length)
  then have "data fig ! (2 * i) = concat (map (\<lambda>e. [?f e, ?g e]) (data_edges d)) ! (2 * i)"
    unfolding render_flow_data[OF assms(1)] by (simp only: nth_append if_True)
  then show ?thesis
    using pairs_nth[OF assms(2), where f = ?f and g = ?g] by simp
qed

text \<open>The script's own data are drawn without an error.\<close>

lemma flow_data_renders: "\<not> isl (render_flow exact_arith flow_data)"
  by (simp add: render_flow_def flow_data_def node_positions_def type_colors_def)

lemma flow_data_figure:
  "render_flow exact_arith flow_data = Inr (projr (render_flow exact_arith flow_data))"
  using flow_data_renders by simp

text \<open>
  C1. For every edge of a figure that the renderer produced, from the node \<open>n1\<close> at
  \<open>(x1, y1)\<close> to the node \<open>n2\<close> at \<open>(x2, y2)\<close>, the arrowhead is the marker trace that
  follows the line of the edge, and its one point is
  \<open>(x1 + 0.9 * (x2 - x1), y1 + 0.9 * (y2 - y1))\<close>, the expression of the
  specification evaluated in the arithmetic of the run (whatever its rounding). Nodes
  are identified by their ids, which the data model takes to be unique.
\<close>

theorem arrowhead_position:
  assumes "render_flow A d = Inr fig"
    and "i < length (data_edges d)"
    and "distinct (map node_id (data_nodes d))"
    and "n1 \<in> set (data_nodes d)" and "node_id n1 = edge_from (data_edges d ! i)"
    and "n2 \<in> set (data_nodes d)" and "node_id n2 = edge_to (data_edges d ! i)"
  shows "mode (data fig ! (2 * i + 1)) = ''markers''
     \<and> trace_x (data fig ! (2 * i + 1)) =
         [py_add A (node_x n1) (py_mul A (py_0_9 A) (py_sub A (node_x n2) (node_x n1)))]
     \<and> trace_y (data fig ! (2 * i + 1)) =
         [py_add A (node_y n1) (py_mul A (py_0_9 A) (py_sub A (node_y n2) (node_y n1)))]"
proof -
  have 1: "node_positions (data_nodes d) (edge_from (data_edges d ! i)) = Some (node_x n1, node_y n1)"
    using node_positions_distinct[OF assms(3) assms(4)] assms(5) by simp
  have 2: "node_positions (data_nodes d) (edge_to (data_edges d ! i)) = Some (node_x n2, node_y n2)"
    using node_positions_distinct[OF assms(3) assms(6)] assms(7) by simp
  show ?thesis
    unfolding render_flow_arrow[OF assms(1) assms(2)] 1 2
    by (simp add: arrow_head_def arrow_x_def arrow_y_def)
qed

theorem arrowhead_position_witness:
  "render_flow exact_arith flow_data = Inr (projr (render_flow exact_arith flow_data))
   \<and> (2::nat) < length (data_edges flow_data)
   \<and> distinct (map node_id (data_nodes flow_data))
   \<and> \<lparr>node_id = ''parser'', node_label = ''AF Parser'', node_type = ''process'',
        node_x = 350, node_y = 200\<rparr> \<in> set (data_nodes flow_data)
   \<and> ''parser'' = edge_from (data_edges flow_data ! 2)
   \<and> \<lparr>node_id = ''memory_converter'', node_label = ''Memory\<newline>Converter'', node_type = ''process'',
        node_x = 500, node_y = 100\<rparr> \<in> set (data_nodes flow_data)
   \<and> ''memory_converter'' = edge_to (data_edges flow_data ! 2)
   \<and> mode (data (projr (render_flow exact_arith flow_data)) ! 5) = ''markers''
   \<and> trace_x (data (projr (render_flow exact_arith flow_data)) ! 5) = [485]
   \<and> trace_y (data (projr (render_flow exact_arith flow_data)) ! 5) = [110]"
proof -
  have len: "(2::nat) < length (data_edges flow_data)" by (simp add: flow_data_def)
  have dist: "distinct (map node_id (data_nodes flow_data))" by (simp add: flow_data_def)
  have n1: "\<lparr>node_id = ''parser'', node_label = ''AF Parser'', node_type = ''process'',
        node_x = 350, node_y = 200\<rparr> \<in> set (data_nodes flow_data)" by (simp add: flow_data_def)
  have n2: "\<lparr>node_id = ''memory_converter'', node_label = ''Memory\<newline>Converter'', node_type = ''process'',
        node_x = 500, node_y = 100\<rparr> \<in> set (data_nodes flow_data)" by (simp add: flow_data_def)
  have e1: "node_id \<lparr>node_id = ''parser'', node_label = ''AF Parser'', node_type = ''process'',
        node_x = 350, node_y = 200::rat\<rparr> = edge_from (data_edges flow_data ! 2)" by (simp add: flow_data_def)
  have e2: "node_id \<lparr>node_id = ''memory_converter'', node_label = ''Memory\<newline>Converter'', node_type = ''process'',
        node_x = 500, node_y = 100::rat\<rparr> = edge_to (data_edges flow_data ! 2)" by (simp add: flow_data_def)
  from arrowhead_position[OF flow_data_figure len dist n1 e1 n2 e2] len dist n1 n2 e1 e2 flow_data_figure
  show ?thesis by (simp add: exact_arith_def)
qed

text \<open>
  C7 as stated does not hold. In the script's own figure the edge number 8 is drawn from
  \<open>x = 650\<close> to \<open>x = 800\<close> and the edge number 9 from \<open>x = 800\<close> back to \<open>x = 650\<close>,
  and the arrowheads of both carry the same symbol \<open>triangle-right\<close>: the symbol does
  not follow the direction of the edge.
\<close>

theorem arrowhead_orientation_counterexample:
  "trace_x (data (projr (render_flow exact_arith flow_data)) ! 16) = [650, 800]
   \<and> trace_x (data (projr (render_flow exact_arith flow_data)) ! 18) = [800, 650]
   \<and> map_option symbol (marker (data (projr (render_flow exact_arith flow_data)) ! 17))
       = Some (Some ''triangle-right'')
   \<and> map_option symbol (marker (data (projr (render_flow exact_arith flow_data)) ! 19))
       = Some (Some ''triangle-right'')"
proof -
  have l8: "(8::nat) < length (data_edges flow_data)" and l9: "(9::nat) < length (data_edges flow_data)"
    by (simp_all add: flow_data_def)
  have p: "node_positions (data_nodes flow_data) ''agent_factory'' = Some (650, 200)"
     "node_positions (data_nodes flow_data) ''mastra_agent'' = Some (800, 200)"
     "node_positions (data_nodes flow_data) ''export_serializer'' = Some (650, 350)"
    by (simp_all add: flow_data_def node_positions_def)
  have e: "data_edges flow_data ! 8 = \<lparr>edge_from = ''agent_factory'', edge_to = ''mastra_agent'', edge_label = ''Create Agent''\<rparr>"
    "data_edges flow_data ! 9 = \<lparr>edge_from = ''mastra_agent'', edge_to = ''export_serializer'', edge_label = ''Export Request''\<rparr>"
    by (simp_all add: flow_data_def)
  show ?thesis
    using render_flow_line[OF flow_data_figure l8] render_flow_line[OF flow_data_figure l9]
      render_flow_arrow[OF flow_data_figure l8] render_flow_arrow[OF flow_data_figure l9]
    by (simp add: e p edge_line_def arrow_head_def)
qed

text \<open>
  C7, amended. The arrowhead marker of every edge is the fixed symbol \<open>triangle-right\<close>,
  of size 8 and of the colour of the lines, whatever the direction of the edge.
\<close>

theorem arrowhead_symbol_fixed:
  assumes "render_flow A d = Inr fig" and "i < length (data_edges d)"
  shows "marker (data fig ! (2 * i + 1)) =
     Some \<lparr>symbol = Some ''triangle-right'', marker_size = 8, marker_color = ''#13343B'',
           marker_line = None\<rparr>"
  unfolding render_flow_arrow[OF assms] by (simp add: arrow_head_def)

theorem arrowhead_symbol_fixed_witness:
  "render_flow exact_arith flow_data = Inr (projr (render_flow exact_arith flow_data))
   \<and> (9::nat) < length (data_edges flow_data)
   \<and> marker (data (projr (render_flow exact_arith flow_data)) ! 19) =
     Some \<lparr>symbol = Some ''triangle-right'', marker_size = 8, marker_color = ''#13343B'',
           marker_line = None\<rparr>"
proof -
  have len: "(9::nat) < length (data_edges flow_data)" by (simp add: flow_data_def)
  from arrowhead_symbol_fixed[OF flow_data_figure len] len flow_data_figure
  show ?thesis by simp
qed

text \<open>
  The legend, counted: an entry of a name is a trace of that name that still shows its
  legend entry. The trace of the node number \<open>j\<close> follows the traces of the edges.
\<close>

lemma count_legend_list:
  "count_list (map trace_name (filter showlegend ts)) (Some nm)
     = length (filter (\<lambda>t. showlegend t \<and> trace_name t = Some nm) ts)"
  by (induction ts) auto

lemma count_legend:
  "count_list (legend fig) (Some nm)
     = length (filter (\<lambda>t. showlegend t \<and> trace_name t = Some nm) (data fig))"
  unfolding legend_def by (rule count_legend_list)

lemma in_image_take:
  "j \<le> length xs \<Longrightarrow> y \<in> f ` set (take j xs) \<longleftrightarrow> (\<exists>k<j. f (xs ! k) = y)"
proof
  assume j: "j \<le> length xs" and "y \<in> f ` set (take j xs)"
  then obtain x where "x \<in> set (take j xs)" "y = f x" by blast
  then obtain k where "k < length (take j xs)" "take j xs ! k = x"
    by (auto simp: in_set_conv_nth)
  with j \<open>y = f x\<close> show "\<exists>k<j. f (xs ! k) = y" by auto
next
  assume j: "j \<le> length xs" and "\<exists>k<j. f (xs ! k) = y"
  then obtain k where k: "k < j" "f (xs ! k) = y" by blast
  with j have "take j xs ! k \<in> set (take j xs)" by (intro nth_mem) simp
  with k show "y \<in> f ` set (take j xs)" by force
qed

lemma render_flow_node:
  assumes "render_flow A d = Inr fig" "j < length (data_nodes d)"
  shows "data fig ! (2 * length (data_edges d) + j) =
     dedup_legend {} (map (\<lambda>n. node_trace n (the (type_colors (node_type n)))) (data_nodes d)) ! j"
  unfolding render_flow_data[OF assms(1)] by (simp add: nth_append pairs_length)

text \<open>
  C4. In every figure that the renderer produced, and for every node of the input, the
  legend has exactly one entry for the category of the node, however many nodes share
  it. The entry is labelled with the title-cased tag (\<open>Process\<close> for \<open>process\<close>), every
  node trace carries that label as its name, and the trace that keeps the entry is the
  one of the first node of the category: first occurrence wins.
\<close>

theorem legend_one_entry_per_category:
  assumes "render_flow A d = Inr fig" and "j < length (data_nodes d)"
  shows "count_list (legend fig) (Some (str_title (node_type (data_nodes d ! j)))) = 1
     \<and> trace_name (data fig ! (2 * length (data_edges d) + j))
         = Some (str_title (node_type (data_nodes d ! j)))
     \<and> (showlegend (data fig ! (2 * length (data_edges d) + j))
         \<longleftrightarrow> (\<forall>k<j. node_type (data_nodes d ! k) \<noteq> node_type (data_nodes d ! j)))
     \<and> str_title ''process'' = ''Process''"
proof -
  let ?ns = "data_nodes d"
  let ?nt = "\<lambda>n. node_trace n (the (type_colors (node_type n)))"
  let ?E = "concat (map (\<lambda>e. [edge_line (the (node_positions ?ns (edge_from e)))
                                 (the (node_positions ?ns (edge_to e))),
                       arrow_head A (the (node_positions ?ns (edge_from e)))
                                    (the (node_positions ?ns (edge_to e)))]) (data_edges d))"
  let ?nm = "str_title (node_type (?ns ! j))"
  have D: "data fig = ?E @ dedup_legend {} (map ?nt ?ns)"
    by (rule render_flow_data[OF assms(1)])
  have mem: "?ns ! j \<in> set ?ns" using assms(2) by simp
  have key: "node_type n \<in> dom type_colors" if "n \<in> set ?ns" for n
    using render_flow_Inr_types[OF assms(1) that] .
  have nonempty: "str_title (node_type n) \<noteq> []" if "n \<in> set ?ns" for n
    using key[OF that] by (auto simp: str_title_def title_from_Nil dom_type_colors)
  have named: "\<forall>t \<in> set (map ?nt ?ns). \<exists>nm. trace_name t = Some nm \<and> nm \<noteq> [] \<and> showlegend t"
    using nonempty by (auto simp: node_trace_def)
  have noE: "filter (\<lambda>t. showlegend t \<and> trace_name t = Some ?nm) ?E = []"
    by (auto simp: filter_empty_conv edge_line_def arrow_head_def)
  have "length (filter (\<lambda>t. showlegend t \<and> trace_name t = Some ?nm) (dedup_legend {} (map ?nt ?ns)))
          = (if ?nm \<notin> {} \<and> Some ?nm \<in> trace_name ` set (map ?nt ?ns) then 1 else 0)"
    by (rule dedup_legend_count[OF nonempty[OF mem]]) (simp add: node_trace_def)
  moreover have "Some ?nm \<in> trace_name ` set (map ?nt ?ns)"
    using mem by (force simp: node_trace_def)
  ultimately have one: "count_list (legend fig) (Some ?nm) = 1"
    unfolding count_legend D using noE by simp
  have node: "data fig ! (2 * length (data_edges d) + j) = dedup_legend {} (map ?nt ?ns) ! j"
    by (rule render_flow_node[OF assms])
  have jlen: "j < length (map ?nt ?ns)" using assms(2) by simp
  have name: "trace_name (data fig ! (2 * length (data_edges d) + j)) = Some ?nm"
    unfolding node
    by (subst dedup_legend_fields[OF jlen]) (simp add: assms(2) node_trace_def)
  have "showlegend (dedup_legend {} (map ?nt ?ns) ! j)
      \<longleftrightarrow> trace_name (map ?nt ?ns ! j) \<notin> Some ` {} \<union> trace_name ` set (take j (map ?nt ?ns))"
    by (rule dedup_legend_first[OF named jlen])
  also have "\<dots> \<longleftrightarrow> \<not> (\<exists>k<j. trace_name (map ?nt ?ns ! k) = trace_name (map ?nt ?ns ! j))"
    using in_image_take[of j "map ?nt ?ns" "trace_name (map ?nt ?ns ! j)" trace_name] jlen by simp
  also have "\<dots> \<longleftrightarrow> (\<forall>k<j. str_title (node_type (?ns ! k)) \<noteq> ?nm)"
    using assms(2) by (auto simp: node_trace_def)
  also have "\<dots> \<longleftrightarrow> (\<forall>k<j. node_type (?ns ! k) \<noteq> node_type (?ns ! j))"
  proof -
    have "str_title (node_type (?ns ! k)) = ?nm \<longleftrightarrow> node_type (?ns ! k) = node_type (?ns ! j)"
      if "k < j" for k
    proof -
      from that assms(2) have "?ns ! k \<in> set ?ns" by simp
      from title_inj_keys[OF key[OF this] key[OF mem]] show ?thesis .
    qed
    then show ?thesis by blast
  qed
  finally have first: "showlegend (data fig ! (2 * length (data_edges d) + j))
         \<longleftrightarrow> (\<forall>k<j. node_type (?ns ! k) \<noteq> node_type (?ns ! j))"
    unfolding node .
  from one name first title_keys(2) show ?thesis by blast
qed

theorem legend_one_entry_per_category_witness:
  "render_flow exact_arith flow_data = Inr (projr (render_flow exact_arith flow_data))
   \<and> (4::nat) < length (data_nodes flow_data)
   \<and> node_type (data_nodes flow_data ! 4) = ''process''
   \<and> count_list (legend (projr (render_flow exact_arith flow_data))) (Some ''Process'') = 1
   \<and> trace_name (data (projr (render_flow exact_arith flow_data)) ! 26) = Some ''Process''
   \<and> \<not> showlegend (data (projr (render_flow exact_arith flow_data)) ! 26)"
proof -
  have len: "(4::nat) < length (data_nodes flow_data)" by (simp add: flow_data_def)
  have ty: "node_type (data_nodes flow_data ! 4) = ''process''" by (simp add: flow_data_def)
  have elen: "length (data_edges flow_data) = 11" by (simp add: flow_data_def)
  have earlier: "\<not> (\<forall>k<4. node_type (data_nodes flow_data ! k) \<noteq> node_type (data_nodes flow_data ! 4))"
  proof
    assume "\<forall>k<4. node_type (data_nodes flow_data ! k) \<noteq> node_type (data_nodes flow_data ! 4)"
    then have "node_type (data_nodes flow_data ! 1) \<noteq> node_type (data_nodes flow_data ! 4)" by simp
    then show False by (simp add: flow_data_def)
  qed
  from legend_one_entry_per_category[OF flow_data_figure len] len ty elen earlier flow_data_figure
  show ?thesis by (simp add: title_keys)
qed

section \<open>Properties of the Hierarchy-Tree Renderer\<close>

text \<open>
  The loop over the connections appends one line per pair, or raises the \<open>KeyError\<close> of
  the first missing name. The loop over the levels never raises: the names that it looks
  up are keys of \<open>nodes\<close>. A name is drawn in the trace of the level that it declares.
\<close>

lemma add_connections_Inr:
  "add_connections nodes conns fig = Inr r \<Longrightarrow>
     r = fig @ map (\<lambda>(p, c). connection_line (the (map_of nodes p)) (the (map_of nodes c))) conns"
proof (induction conns arbitrary: fig)
  case Nil
  then show ?case by simp
next
  case (Cons pc conns)
  obtain parent child where pc: "pc = (parent, child)" by (cases pc)
  from Cons.prems obtain p c where p: "map_of nodes parent = Some p" and c: "map_of nodes child = Some c"
    by (auto simp: pc split: option.splits)
  with Cons.prems have "add_connections nodes conns (fig @ [connection_line p c]) = Inr r"
    by (simp add: pc)
  from Cons.IH[OF this] show ?case by (simp add: pc p c)
qed


lemma add_connections_total:
  "find (\<lambda>n. map_of nodes n = None) (concat (map (\<lambda>(p, c). [p, c]) conns)) = None \<Longrightarrow>
     \<exists>r. add_connections nodes conns fig = Inr r"
  by (induction conns arbitrary: fig) (auto split: option.splits if_splits)

lemma lookup_each_keys:
  "set names \<subseteq> fst ` set nodes \<Longrightarrow> lookup_each nodes names = Inr (map (the \<circ> map_of nodes) names)"
proof (induction names)
  case Nil
  show ?case by simp
next
  case (Cons name names)
  then have "name \<in> fst ` set nodes" by simp
  then obtain d where "map_of nodes name = Some d"
    by (metis domD dom_map_of_conv_image_fst)
  with Cons show ?case by simp
qed

lemma level_nodes_keys: "set (level_nodes nodes lv) \<subseteq> fst ` set nodes"
  by (auto simp: level_nodes_def)

lemma add_levels_eq:
  "add_levels nodes lvs fig =
     Inr (fig @ concat (map (\<lambda>lv. if level_nodes nodes lv = [] then []
        else [level_trace lv (level_nodes nodes lv) (map (the \<circ> map_of nodes) (level_nodes nodes lv))]) lvs))"
  by (induction lvs arbitrary: fig) (simp_all add: lookup_each_keys[OF level_nodes_keys])

lemma render_tree_data:
  assumes "render_tree nodes conns = Inr fig"
  shows "data fig =
     map (\<lambda>(p, c). connection_line (the (map_of nodes p)) (the (map_of nodes c))) conns
     @ concat (map (\<lambda>lv. if level_nodes nodes lv = [] then []
        else [level_trace lv (level_nodes nodes lv) (map (the \<circ> map_of nodes) (level_nodes nodes lv))]) [0, 1, 2])"
proof -
  from assms obtain fig1 where 1: "add_connections nodes conns [] = Inr fig1"
    and 2: "fig = \<lparr>data = fig1 @ concat (map (\<lambda>lv. if level_nodes nodes lv = [] then []
        else [level_trace lv (level_nodes nodes lv) (map (the \<circ> map_of nodes) (level_nodes nodes lv))]) [0, 1, 2]),
        layout = tree_layout\<rparr>"
    unfolding render_tree_def add_levels_eq by (auto split: sum.splits)
  show ?thesis unfolding 2 using add_connections_Inr[OF 1] by simp
qed

lemma name_in_level:
  assumes "distinct (map fst nodes)" "(name, nd) \<in> set nodes"
  shows "name \<in> set (level_nodes nodes lv) \<longleftrightarrow> level nd = int lv"
proof
  assume "name \<in> set (level_nodes nodes lv)"
  then obtain nd' where "(name, nd') \<in> set nodes" "level nd' = int lv"
    by (auto simp: level_nodes_def)
  with assms show "level nd = int lv" by (auto dest: eq_key_imp_eq_value)
next
  assume "level nd = int lv"
  with assms(2) show "name \<in> set (level_nodes nodes lv)"
    by (force simp: level_nodes_def)
qed

lemma level_filter:
  assumes "distinct (map fst nodes)" "(name, nd) \<in> set nodes"
  shows "map (\<lambda>t. (map_option marker_size (marker t), map_option font_size (textfont t)))
     (filter (\<lambda>t. name \<in> set (text_names (trace_text t)))
       (if level_nodes nodes lv = [] then []
        else [level_trace lv (level_nodes nodes lv) (map (the \<circ> map_of nodes) (level_nodes nodes lv))]))
     = (if level nd = int lv then [(Some (level_marker_size lv), Some (level_font_size lv))] else [])"
  using name_in_level[OF assms, of lv] by (auto simp: level_trace_def)

text \<open>The script's own tree is drawn without an error.\<close>

lemma tree_renders: "\<not> isl (render_tree tree_nodes connections)"
  by (simp add: render_tree_def tree_nodes_def connections_def level_nodes_def)

lemma tree_figure:
  "render_tree tree_nodes connections = Inr (projr (render_tree tree_nodes connections))"
  using tree_renders by simp

text \<open>
  C6. In every figure that the tree renderer produced, the marker size and the font size
  with which a node is drawn are a function of its declared level alone: 20 and 14 at
  level 0, 15 and 11 at level 1, 12 and 9 at level 2, three distinct tiers, wherever the
  node stands in the mapping. The node is drawn in exactly one trace (a node of any
  other level is in no trace, since the loop runs over \<open>range(3)\<close>). \<open>nodes\<close> is a
  dictionary, so its keys are distinct.
\<close>

theorem tier_determined_by_level:
  assumes "render_tree nodes conns = Inr fig"
    and "distinct (map fst nodes)"
    and "(name, nd) \<in> set nodes"
  shows "map (\<lambda>t. (map_option marker_size (marker t), map_option font_size (textfont t)))
           (filter (\<lambda>t. name \<in> set (text_names (trace_text t))) (data fig))
         = (if level nd = 0 then [(Some 20, Some 14)]
            else if level nd = 1 then [(Some 15, Some 11)]
            else if level nd = 2 then [(Some 12, Some 9)]
            else [])"
proof -
  have conn: "filter (\<lambda>t. name \<in> set (text_names (trace_text t)))
      (map (\<lambda>(p, c). connection_line (the (map_of nodes p)) (the (map_of nodes c))) conns) = []"
    by (auto simp: filter_empty_conv connection_line_def)
  let ?sty = "\<lambda>t::'a scatter. (map_option marker_size (marker t), map_option font_size (textfont t))"
  let ?P = "\<lambda>t::'a scatter. name \<in> set (text_names (trace_text t))"
  let ?L = "\<lambda>lv::nat. if level_nodes nodes lv = [] then []
        else [level_trace lv (level_nodes nodes lv) (map (the \<circ> map_of nodes) (level_nodes nodes lv))]"
  have "data fig = map (\<lambda>(p, c). connection_line (the (map_of nodes p)) (the (map_of nodes c))) conns
      @ ?L 0 @ ?L 1 @ ?L 2"
    by (simp only: render_tree_data[OF assms(1)] list.map concat.simps append_Nil2)
  then have "map ?sty (filter ?P (data fig))
      = map ?sty (filter ?P (?L 0)) @ map ?sty (filter ?P (?L 1)) @ map ?sty (filter ?P (?L 2))"
    using conn by (simp only: filter_append map_append append_Nil list.map)
  also have "\<dots> = (if level nd = int 0 then [(Some (level_marker_size 0), Some (level_font_size 0))] else [])
      @ (if level nd = int 1 then [(Some (level_marker_size 1), Some (level_font_size 1))] else [])
      @ (if level nd = int 2 then [(Some (level_marker_size 2), Some (level_font_size 2))] else [])"
    by (simp only: level_filter[OF assms(2,3)])
  also have "\<dots> = (if level nd = 0 then [(Some 20, Some 14)]
            else if level nd = 1 then [(Some 15, Some 11)]
            else if level nd = 2 then [(Some 12, Some 9)]
            else [])"
    by (simp add: level_marker_size_def level_font_size_def)
  finally show ?thesis .
qed

theorem tier_determined_by_level_witness:
  "render_tree tree_nodes connections = Inr (projr (render_tree tree_nodes connections))
   \<and> distinct (map fst tree_nodes)
   \<and> (''Tooling'', \<lparr>tree_x = 3, tree_y = 4, level = 1\<rparr>) \<in> set tree_nodes
   \<and> map (\<lambda>t. (map_option marker_size (marker t), map_option font_size (textfont t)))
        (filter (\<lambda>t. ''Tooling'' \<in> set (text_names (trace_text t)))
          (data (projr (render_tree tree_nodes connections))))
      = [(Some 15, Some 11)]"
proof -
  have dist: "distinct (map fst tree_nodes)" by (simp add: tree_nodes_def)
  have mem: "(''Tooling'', \<lparr>tree_x = 3, tree_y = 4, level = 1\<rparr>) \<in> set tree_nodes"
    by (simp add: tree_nodes_def)
  from tier_determined_by_level[OF tree_figure dist mem] tree_figure dist mem
  show ?thesis by simp
qed

section \<open>Properties of both renderers\<close>


lemma positions_None: "node_positions ns k = None \<longleftrightarrow> k \<notin> node_id ` set ns"
proof -
  have "node_positions ns k = None \<longleftrightarrow> k \<notin> dom (node_positions ns)" by blast
  then show ?thesis by (simp only: dom_node_positions)
qed

lemma map_of_None: "map_of nodes k = None \<longleftrightarrow> k \<notin> fst ` set nodes"
  by (simp add: map_of_eq_None_iff)

text \<open>
  The runs return: a flow diagram whose edges name nodes of the node set and whose
  categories have a colour gives a figure, and so does a tree whose connections name
  keys of \<open>nodes\<close>.
\<close>

lemma add_nodes_total:
  "\<forall>n \<in> set ns. node_type n \<in> dom type_colors \<Longrightarrow> \<exists>r. add_nodes ns fig = Inr r"
  by (induction ns arbitrary: fig) auto

lemma render_flow_succeeds:
  assumes "\<forall>e \<in> set (data_edges d). edge_from e \<in> node_id ` set (data_nodes d)
                                 \<and> edge_to e \<in> node_id ` set (data_nodes d)"
    and "\<forall>n \<in> set (data_nodes d). node_type n \<in> {''input'', ''process'', ''output''}"
  shows "\<exists>fig. render_flow A d = Inr fig"
proof -
  have "find (\<lambda>n. node_positions (data_nodes d) n = None)
          (concat (map (\<lambda>e. [edge_from e, edge_to e]) (data_edges d))) = None"
    using assms(1) by (auto simp: find_None_iff positions_None)
  from add_edges_total[OF this] obtain fig1 where
    1: "add_edges A (node_positions (data_nodes d)) (data_edges d) [] = Inr fig1"
    by blast
  from assms(2) have "\<forall>n \<in> set (data_nodes d). node_type n \<in> dom type_colors"
    by (simp add: dom_type_colors)
  from add_nodes_total[OF this] obtain fig2 where 2: "add_nodes (data_nodes d) fig1 = Inr fig2"
    by blast
  show ?thesis by (simp add: render_flow_def 1 2)
qed

lemma render_tree_succeeds:
  assumes "\<forall>(parent, child) \<in> set conns. parent \<in> fst ` set nodes \<and> child \<in> fst ` set nodes"
  shows "\<exists>fig. render_tree nodes conns = Inr fig"
proof -
  have "find (\<lambda>n. map_of nodes n = None) (concat (map (\<lambda>(p, c). [p, c]) conns)) = None"
    using assms by (fastforce simp: find_None_iff map_of_None)
  from add_connections_total[OF this] obtain fig1 where "add_connections nodes conns [] = Inr fig1"
    by blast
  then show ?thesis by (simp add: render_tree_def add_levels_eq)
qed




text \<open>
  C8. The axis ranges are fixed in the layout, \<open>[-20, 870]\<close> by \<open>[50, 400]\<close> for the flow
  diagram and \<open>[-5, 7]\<close> by \<open>[2.5, 5.5]\<close> for the tree, and every node of the scripts'
  own data lies strictly inside them. The decimal literals of the tree are read as the
  rationals that they denote; every coordinate is at least 1/2 away from the bounds, so
  the comparisons are the same for the nearest floating-point numbers.
\<close>

theorem axis_ranges_contain_nodes:
  "map_sum id layout (render_flow exact_arith flow_data) = Inr flow_layout
   \<and> axis_range (xaxis flow_layout) = Some (- 20, 870)
   \<and> axis_range (yaxis flow_layout) = Some (50, 400)
   \<and> (\<forall>n \<in> set (data_nodes flow_data).
        - 20 < node_x n \<and> node_x n < 870 \<and> 50 < node_y n \<and> node_y n < 400)
   \<and> map_sum id layout (render_tree tree_nodes connections) = Inr tree_layout
   \<and> axis_range (xaxis tree_layout) = Some (- 5, 7)
   \<and> axis_range (yaxis tree_layout) = Some (5 / 2, 11 / 2)
   \<and> (\<forall>(name, nd) \<in> set tree_nodes.
        - 5 < tree_x nd \<and> tree_x nd < 7 \<and> 5 / 2 < tree_y nd \<and> tree_y nd < 11 / 2)"
proof (intro conjI)
  show "map_sum id layout (render_flow exact_arith flow_data) = Inr flow_layout"
    by (simp add: render_flow_def flow_data_def node_positions_def type_colors_def)
  show "map_sum id layout (render_tree tree_nodes connections) = Inr tree_layout"
    by (simp add: render_tree_def tree_nodes_def connections_def level_nodes_def)
  show "axis_range (xaxis flow_layout) = Some (- 20, 870)"
    and "axis_range (yaxis flow_layout) = Some (50, 400)"
    by (simp_all add: flow_layout_def hidden_axis_def)
  show "axis_range (xaxis tree_layout) = Some (- 5, 7)"
    and "axis_range (yaxis tree_layout) = Some (5 / 2, 11 / 2)"
    by (simp_all add: tree_layout_def bare_axis_def)
  show "\<forall>n \<in> set (data_nodes flow_data).
        - 20 < node_x n \<and> node_x n < 870 \<and> 50 < node_y n \<and> node_y n < 400"
    by (simp add: flow_data_def)
  show "\<forall>(name, nd) \<in> set tree_nodes.
        - 5 < tree_x nd \<and> tree_x nd < 7 \<and> 5 / 2 < tree_y nd \<and> tree_y nd < 11 / 2"
    by (simp add: tree_nodes_def)
qed

theorem axis_ranges_contain_nodes_witness:
  "\<lparr>node_id = ''export_af'', node_label = ''Exported\<newline>.af File'', node_type = ''output'',
     node_x = 800, node_y = 350\<rparr> \<in> set (data_nodes flow_data)
   \<and> - 20 < (800::rat) \<and> (800::rat) < 870 \<and> 50 < (350::rat) \<and> (350::rat) < 400
   \<and> (''agent_type'', \<lparr>tree_x = - 4, tree_y = 3, level = 2\<rparr>) \<in> set tree_nodes
   \<and> - 5 < (- 4::rat) \<and> (- 4::rat) < 7 \<and> 5 / 2 < (3::rat) \<and> (3::rat) < 11 / 2"
proof -
  have 1: "\<lparr>node_id = ''export_af'', node_label = ''Exported\<newline>.af File'', node_type = ''output'',
     node_x = 800, node_y = 350\<rparr> \<in> set (data_nodes flow_data)"
    by (simp add: flow_data_def)
  have 2: "(''agent_type'', \<lparr>tree_x = - 4, tree_y = 3, level = 2\<rparr>) \<in> set tree_nodes"
    by (simp add: tree_nodes_def)
  from axis_ranges_contain_nodes have
    a: "\<forall>n \<in> set (data_nodes flow_data).
        - 20 < node_x n \<and> node_x n < 870 \<and> 50 < node_y n \<and> node_y n < 400"
    and b: "\<forall>(name, nd) \<in> set tree_nodes.
        - 5 < tree_x nd \<and> tree_x nd < 7 \<and> 5 / 2 < tree_y nd \<and> tree_y nd < 11 / 2"
    by blast+
  from bspec[OF a 1] bspec[OF b 2] 1 2 show ?thesis by simp
qed



end
